theory Spec2Isabelle
  imports Main "HOL-Library.AList" "HOL-Library.Sublist"
begin

section \<open>Python values, exceptions and results\<close>

text \<open>
  The planner node of \<^verbatim>\<open>src/aish_agent/planner_node.py\<close> handles dynamically typed
  values: the graph state, the content of the reply of the language model, and whatever
  \<^verbatim>\<open>json.loads\<close> decodes. They are the values of \<open>pyval\<close>. A dictionary is an
  association list in insertion order with string keys; a float is identified with its
  \<^verbatim>\<open>repr\<close> (\<open>''0.0''\<close>, \<open>''1.5''\<close>, \<open>''nan''\<close>), which determines it. A character
  is a code point below 256.
\<close>

datatype pyval =
    PNone
  | PBool bool
  | PInt int
  | PFloat string
  | PStr string
  | PList "pyval list"
  | PDict "(string \<times> pyval) list"

text \<open>
  An exception carries its class and the text that \<^verbatim>\<open>str(e)\<close> gives. \<open>ClientError\<close>
  stands for any \<^verbatim>\<open>Exception\<close> raised while the messages are built and sent to the
  language model. A Python function returns \<open>Inr\<close> of its value or \<open>Inl\<close> of the
  exception it raises.
\<close>

datatype exn =
    ClientError string
  | AttributeError string
  | TypeError string
  | ValueError string
  | JSONDecodeError string

fun exc_str :: "exn \<Rightarrow> string" where
  "exc_str (ClientError m) = m"
| "exc_str (AttributeError m) = m"
| "exc_str (TypeError m) = m"
| "exc_str (ValueError m) = m"
| "exc_str (JSONDecodeError m) = m"

fun type_name :: "pyval \<Rightarrow> string" where
  "type_name PNone = ''NoneType''"
| "type_name (PBool b) = ''bool''"
| "type_name (PInt i) = ''int''"
| "type_name (PFloat r) = ''float''"
| "type_name (PStr s) = ''str''"
| "type_name (PList xs) = ''list''"
| "type_name (PDict kvs) = ''dict''"

definition quoted :: "string \<Rightarrow> string" where
  "quoted s = CHR 0x27 # s @ [CHR 0x27]"

definition no_attribute :: "pyval \<Rightarrow> string \<Rightarrow> exn" where
  "no_attribute v a =
     AttributeError (quoted (type_name v) @ '' object has no attribute '' @ quoted a)"

text \<open>Truth value testing, as \<^verbatim>\<open>not user_input\<close> does it.\<close>

fun py_truthy :: "pyval \<Rightarrow> bool" where
  "py_truthy PNone = False"
| "py_truthy (PBool b) = b"
| "py_truthy (PInt i) = (i \<noteq> 0)"
| "py_truthy (PFloat r) = (r \<noteq> ''0.0'' \<and> r \<noteq> ''-0.0'')"
| "py_truthy (PStr s) = (s \<noteq> [])"
| "py_truthy (PList xs) = (xs \<noteq> [])"
| "py_truthy (PDict kvs) = (kvs \<noteq> [])"

section \<open>The string and dictionary operations the node uses\<close>

text \<open>\<^verbatim>\<open>str.isspace\<close> on the code points below 256.\<close>

definition py_isspace :: "char \<Rightarrow> bool" where
  "py_isspace c =
     (c \<in> set [CHR 0x09, CHR 0x0A, CHR 0x0B, CHR 0x0C, CHR 0x0D, CHR 0x1C, CHR 0x1D,
               CHR 0x1E, CHR 0x1F, CHR 0x20, CHR 0x85, CHR 0xA0])"

definition py_strip :: "string \<Rightarrow> string" where
  "py_strip s = rev (dropWhile py_isspace (rev (dropWhile py_isspace s)))"

text \<open>\<^verbatim>\<open>s.startswith(c)\<close> for a one-character \<open>c\<close>.\<close>

fun startswith :: "string \<Rightarrow> char \<Rightarrow> bool" where
  "startswith [] c = False"
| "startswith (x # xs) c = (x = c)"

text \<open>
  \<^verbatim>\<open>s.find(c)\<close> and \<^verbatim>\<open>s.rfind(c)\<close> for a one-character \<open>c\<close>: the lowest and the
  highest index where \<open>c\<close> occurs, \<open>-1\<close> when it does not occur.
\<close>

fun py_find :: "string \<Rightarrow> char \<Rightarrow> int" where
  "py_find [] c = -1"
| "py_find (x # xs) c =
     (if x = c then 0 else (let i = py_find xs c in if i = -1 then -1 else i + 1))"

definition py_rfind :: "string \<Rightarrow> char \<Rightarrow> int" where
  "py_rfind s c =
     (let i = py_find (rev s) c in if i = -1 then -1 else int (length s) - 1 - i)"

text \<open>
  \<^verbatim>\<open>s[i:j]\<close>: a negative index counts from the end, both indices are clamped to the
  string, and the slice is empty when the start is not before the end.
\<close>

definition slice_index :: "nat \<Rightarrow> int \<Rightarrow> nat" where
  "slice_index n k = (if k < 0 then nat (max 0 (int n + k)) else min (nat k) n)"

definition py_slice :: "string \<Rightarrow> int \<Rightarrow> int \<Rightarrow> string" where
  "py_slice s i j =
     (let a = slice_index (length s) i; b = slice_index (length s) j
      in take (b - a) (drop a s))"

text \<open>
  \<^verbatim>\<open>key in step\<close> for a string \<open>key\<close>: a key of a dictionary, an element of a list,
  a substring of a string; the other values are no containers and raise TypeError.
\<close>

fun py_contains :: "pyval \<Rightarrow> string \<Rightarrow> exn + bool" where
  "py_contains (PDict kvs) key = Inr (key \<in> fst ` set kvs)"
| "py_contains (PList xs) key = Inr (PStr key \<in> set xs)"
| "py_contains (PStr s) key = Inr (sublist key s)"
| "py_contains v key =
     Inl (TypeError (''argument of type '' @ quoted (type_name v) @ '' is not iterable''))"

text \<open>\<^verbatim>\<open>d.get(key)\<close>: only a dictionary has the method; a missing key gives None.\<close>

fun py_get :: "pyval \<Rightarrow> string \<Rightarrow> exn + pyval" where
  "py_get (PDict kvs) key = Inr (case map_of kvs key of None \<Rightarrow> PNone | Some v \<Rightarrow> v)"
| "py_get v key = Inl (no_attribute v ''get'')"

section \<open>The node's collaborators\<close>

text \<open>
  \<^verbatim>\<open>json.loads\<close> belongs to the Python library: on a string it returns the decoded
  value or raises JSONDecodeError. The node is modelled for every such decoder; \<open>Inl m\<close>
  is JSONDecodeError with message \<open>m\<close>.
\<close>

type_synonym decoder = "string \<Rightarrow> string + pyval"

text \<open>
  The reply of the language model: a chat model returns a message object with a
  \<^verbatim>\<open>content\<close> attribute, a completion model returns text. The client is modelled for
  every behaviour: it takes the user's input and the state of the world \<open>'w\<close> (network,
  server, its own counters), raises or replies, and leaves a new state of the world.
\<close>

datatype response = Message pyval | Text string

type_synonym 'w client = "pyval \<Rightarrow> 'w \<Rightarrow> (exn + response) \<times> 'w"

section \<open>PlannerNode._parse_response\<close>

text \<open>The two dictionaries that \<^verbatim>\<open>_parse_response\<close> builds when it finds no plan.\<close>

definition no_json_plan :: "string \<Rightarrow> pyval" where
  "no_json_plan response =
     PDict [(''plan'', PList [PDict [(''step'', PInt 1),
                                     (''description'', PStr ''Execute user request''),
                                     (''task'', PStr (py_strip response)),
                                     (''category'', PStr ''other'')]]),
            (''summary'', PStr ''Execute user request''),
            (''estimated_time'', PStr ''Unknown''),
            (''requires_sudo'', PBool False),
            (''warnings'', PList [PStr ''Could not parse detailed plan''])]"

definition decode_error_plan :: "string \<Rightarrow> pyval" where
  "decode_error_plan response =
     PDict [(''plan'', PList [PDict [(''step'', PInt 1),
                                     (''description'', PStr ''Execute user request''),
                                     (''task'', PStr (py_strip response)),
                                     (''category'', PStr ''other'')]]),
            (''summary'', PStr ''Execute user request''),
            (''estimated_time'', PStr ''Unknown''),
            (''requires_sudo'', PBool False),
            (''warnings'', PList [PStr ''Could not parse LLM response''])]"

text \<open>
  The body of the \<^verbatim>\<open>try\<close> statement (lines 133 to 159): \<open>Inl\<close> is the
  JSONDecodeError that leaves it.
\<close>

definition json_loads_call :: "decoder \<Rightarrow> string \<Rightarrow> exn + pyval" where
  "json_loads_call loads s = (case loads s of Inl m \<Rightarrow> Inl (JSONDecodeError m) | Inr v \<Rightarrow> Inr v)"

definition parse_try :: "decoder \<Rightarrow> string \<Rightarrow> exn + pyval" where
  "parse_try loads response =
     (if startswith (py_strip response) CHR ''{'' then json_loads_call loads response
      else
        let start_idx = py_find response CHR ''{'';
            end_idx = py_rfind response CHR ''}'' + 1
        in if start_idx \<noteq> -1 \<and> end_idx \<noteq> -1
           then json_loads_call loads (py_slice response start_idx end_idx)
           else Inr (no_json_plan response))"

text \<open>
  The whole method: the handler of line 161 takes a JSONDecodeError, any other
  exception would pass. Its debug output, which only prints, is left out.
\<close>

definition parse_response :: "decoder \<Rightarrow> string \<Rightarrow> exn + pyval" where
  "parse_response loads response =
     (case parse_try loads response of
        Inr v \<Rightarrow> Inr v
      | Inl (JSONDecodeError m) \<Rightarrow> Inr (decode_error_plan response)
      | Inl e \<Rightarrow> Inl e)"

text \<open>
  \<^verbatim>\<open>plan\<close> calls the method on the content of the reply, whatever its type: only a
  string has \<^verbatim>\<open>strip\<close> (line 134).
\<close>

fun parse_response_of :: "decoder \<Rightarrow> pyval \<Rightarrow> exn + pyval" where
  "parse_response_of loads (PStr s) = parse_response loads s"
| "parse_response_of loads v = Inl (no_attribute v ''strip'')"

section \<open>PlannerNode.plan\<close>

definition required_keys :: "string list" where
  "required_keys = [''step'', ''description'', ''task'', ''category'']"

text \<open>
  \<^verbatim>\<open>all(key in step for key in [...])\<close>: stops at the first key that is missing, and
  at the first test that raises.
\<close>

fun all_keys_in :: "pyval \<Rightarrow> string list \<Rightarrow> exn + bool" where
  "all_keys_in step [] = Inr True"
| "all_keys_in step (key # keys) =
     (case py_contains step key of
        Inl e \<Rightarrow> Inl e
      | Inr b \<Rightarrow> if b then all_keys_in step keys else Inr False)"

text \<open>The loop of lines 222 to 224.\<close>

fun check_steps :: "pyval list \<Rightarrow> exn + unit" where
  "check_steps [] = Inr ()"
| "check_steps (step # steps) =
     (case all_keys_in step required_keys of
        Inl e \<Rightarrow> Inl e
      | Inr b \<Rightarrow>
          if \<not> b
          then Inl (ValueError ''Each step must have step, description, task, and category fields'')
          else check_steps steps)"

text \<open>Lines 218 to 226: the validation of the parsed plan.\<close>

definition validate_plan :: "pyval \<Rightarrow> exn + pyval" where
  "validate_plan p =
     (case py_get p ''plan'' of
        Inl e \<Rightarrow> Inl e
      | Inr (PList steps) \<Rightarrow>
          (case check_steps steps of Inl e \<Rightarrow> Inl e | Inr u \<Rightarrow> Inr p)
      | Inr v \<Rightarrow> Inl (ValueError ''Plan must contain a list of steps''))"

text \<open>Lines 206 to 209: the content of the reply.\<close>

fun content_of :: "response \<Rightarrow> pyval" where
  "content_of (Message c) = c"
| "content_of (Text s) = PStr s"

text \<open>
  The body of the \<^verbatim>\<open>try\<close> statement of \<^verbatim>\<open>plan\<close> (lines 193 to 226). The debug
  output, which only prints, is left out.
\<close>

definition plan_try :: "decoder \<Rightarrow> 'w client \<Rightarrow> pyval \<Rightarrow> 'w \<Rightarrow> (exn + pyval) \<times> 'w" where
  "plan_try loads llm user_input w =
     (case llm user_input w of
        (Inl e, w') \<Rightarrow> (Inl e, w')
      | (Inr response, w') \<Rightarrow>
          (case parse_response_of loads (content_of response) of
             Inl e \<Rightarrow> (Inl e, w')
           | Inr p \<Rightarrow> (validate_plan p, w')))"

text \<open>The dictionary of the handler (lines 233 to 246).\<close>

definition planning_failed_plan :: "pyval \<Rightarrow> exn \<Rightarrow> pyval" where
  "planning_failed_plan user_input e =
     PDict [(''plan'', PList [PDict [(''step'', PInt 1),
                                     (''description'', PStr ''Execute user request''),
                                     (''task'', user_input),
                                     (''category'', PStr ''other'')]]),
            (''summary'', PStr ''Execute user request (fallback plan)''),
            (''estimated_time'', PStr ''Unknown''),
            (''requires_sudo'', PBool False),
            (''warnings'', PList [PStr (''Planning failed: '' @ exc_str e)])]"

definition plan :: "decoder \<Rightarrow> 'w client \<Rightarrow> pyval \<Rightarrow> 'w \<Rightarrow> (exn + pyval) \<times> 'w" where
  "plan loads llm user_input w =
     (case plan_try loads llm user_input w of
        (Inr p, w') \<Rightarrow> (Inr p, w')
      | (Inl e, w') \<Rightarrow> (Inr (planning_failed_plan user_input e), w'))"

section \<open>PlannerNode.__call__\<close>

definition empty_plan :: pyval where
  "empty_plan =
     PDict [(''plan'', PList []),
            (''summary'', PStr ''No input provided''),
            (''estimated_time'', PStr ''0 minutes''),
            (''requires_sudo'', PBool False),
            (''warnings'', PList [PStr ''No user input provided''])]"

text \<open>
  The graph state is a dictionary. \<^verbatim>\<open>{**state, key: value}\<close> keeps the entries of the
  state in their order, replaces the value of a key that is there and appends a new key.
\<close>

type_synonym state = "(string \<times> pyval) list"

definition PlannerNode_call ::
  "decoder \<Rightarrow> 'w client \<Rightarrow> state \<Rightarrow> 'w \<Rightarrow> (exn + state) \<times> 'w" where
  "PlannerNode_call loads llm st w =
     (let user_input = (case map_of st ''user_input'' of None \<Rightarrow> PStr [] | Some v \<Rightarrow> v)
      in if \<not> py_truthy user_input
         then (Inr (AList.update ''plan'' empty_plan st), w)
         else
           (case plan loads llm user_input w of
              (Inl e, w') \<Rightarrow> (Inl e, w')
            | (Inr p, w') \<Rightarrow>
                (Inr (AList.update ''failed_steps'' (PList [])
                       (AList.update ''completed_steps'' (PList [])
                         (AList.update ''current_step'' (PInt 0)
                           (AList.update ''plan'' p st)))), w')))"

section \<open>Notions of the specification\<close>

text \<open>
  What the specification says about plans, read off a Python value: the list under
  \<^verbatim>\<open>'plan'\<close>, the fields of a step, the warnings.
\<close>

fun is_dict :: "pyval \<Rightarrow> bool" where
  "is_dict (PDict kvs) = True"
| "is_dict v = False"

fun field :: "pyval \<Rightarrow> string \<Rightarrow> pyval option" where
  "field (PDict kvs) key = map_of kvs key"
| "field v key = None"

definition has_key :: "pyval \<Rightarrow> string \<Rightarrow> bool" where
  "has_key v key = (field v key \<noteq> None)"

definition has_plan_list :: "pyval \<Rightarrow> bool" where
  "has_plan_list p = (case field p ''plan'' of Some (PList steps) \<Rightarrow> True | _ \<Rightarrow> False)"

definition steps_of :: "pyval \<Rightarrow> pyval list" where
  "steps_of p = (case field p ''plan'' of Some (PList steps) \<Rightarrow> steps | _ \<Rightarrow> [])"

text \<open>The one step of the three fallback dictionaries, and such a dictionary.\<close>

definition fallback_step :: "pyval \<Rightarrow> pyval" where
  "fallback_step task =
     PDict [(''step'', PInt 1), (''description'', PStr ''Execute user request''),
            (''task'', task), (''category'', PStr ''other'')]"

definition single_step_fallback :: "pyval \<Rightarrow> pyval \<Rightarrow> string \<Rightarrow> bool" where
  "single_step_fallback p task warning =
     (is_dict p \<and> steps_of p = [fallback_step task] \<and>
      field p ''warnings'' = Some (PList [PStr warning]))"

text \<open>
  A Plan of the data model: the steps with their four fields, the summary, the estimated
  time, the sudo flag and the warnings.
\<close>

fun is_str :: "pyval \<Rightarrow> bool" where
  "is_str (PStr s) = True"
| "is_str v = False"

definition valid_step :: "pyval \<Rightarrow> bool" where
  "valid_step step = list_all (has_key step) required_keys"

definition valid_plan :: "pyval \<Rightarrow> bool" where
  "valid_plan p =
     (has_plan_list p \<and> list_all valid_step (steps_of p) \<and>
      (case field p ''summary'' of Some (PStr s) \<Rightarrow> True | _ \<Rightarrow> False) \<and>
      (case field p ''estimated_time'' of Some (PStr s) \<Rightarrow> True | _ \<Rightarrow> False) \<and>
      (case field p ''requires_sudo'' of Some (PBool b) \<Rightarrow> True | _ \<Rightarrow> False) \<and>
      (case field p ''warnings'' of Some (PList ws) \<Rightarrow> list_all is_str ws | _ \<Rightarrow> False))"

text \<open>The categories that the system prompt enumerates (line 39).\<close>

definition categories :: "string list" where
  "categories = [''install'', ''configure'', ''start'', ''stop'', ''check'', ''create'',
                 ''delete'', ''update'', ''other'']"

definition enumerated_categories :: "pyval \<Rightarrow> bool" where
  "enumerated_categories p =
     list_all (\<lambda>step. case field step ''category'' of
                         Some (PStr c) \<Rightarrow> c \<in> set categories
                       | _ \<Rightarrow> False) (steps_of p)"


text \<open>
  The substring between the first opening and the last closing brace, both included; it
  is empty when no closing brace follows the first opening one.
\<close>

definition between_braces :: "string \<Rightarrow> string" where
  "between_braces s =
     rev (dropWhile (\<lambda>c. c \<noteq> CHR ''}'') (rev (dropWhile (\<lambda>c. c \<noteq> CHR ''{'') s)))"

text \<open>
  The order of parsing as the specification words it: the direct parse where it applies,
  then the extraction, and the fallback, which wraps the raw text, only when both have
  failed.
\<close>

definition raw_text_plan :: "string \<Rightarrow> pyval \<Rightarrow> bool" where
  "raw_text_plan response p = (steps_of p = [fallback_step (PStr response)])"

definition both_parses_fail :: "decoder \<Rightarrow> string \<Rightarrow> bool" where
  "both_parses_fail loads response =
     (isl (loads response) \<and> isl (loads (between_braces response)))"

text \<open>
  A client that counts its invocations beside the state of the world.
\<close>

definition counted :: "'w client \<Rightarrow> ('w \<times> nat) client" where
  "counted llm user_input wn =
     (case llm user_input (fst wn) of (r, w') \<Rightarrow> (r, (w', Suc (snd wn))))"

section \<open>A decoder and an encoder for concrete runs\<close>

text \<open>
  To run the node on concrete replies, \<open>json_loads_basic\<close> decodes the JSON texts made of
  objects, arrays, strings with the one-letter escapes, integers and the three literals
  as \<^verbatim>\<open>json.loads\<close> does. Fractions, exponents, \<^verbatim>\<open>\u\<close> escapes and the constants
  NaN and Infinity are outside this fragment and no run below contains them. The theorems
  on the node hold for every decoder; this one instantiates them.
\<close>

definition json_ws :: "char \<Rightarrow> bool" where
  "json_ws c = (c \<in> set [CHR 0x20, CHR 0x09, CHR 0x0A, CHR 0x0D])"

definition skip_ws :: "string \<Rightarrow> string" where
  "skip_ws s = dropWhile json_ws s"

definition unescape :: "char \<Rightarrow> char option" where
  "unescape e =
     (if e = CHR 0x22 then Some (CHR 0x22)
      else if e = CHR 0x5C then Some (CHR 0x5C)
      else if e = CHR ''/'' then Some (CHR ''/'')
      else if e = CHR ''b'' then Some (CHR 0x08)
      else if e = CHR ''f'' then Some (CHR 0x0C)
      else if e = CHR ''n'' then Some (CHR 0x0A)
      else if e = CHR ''r'' then Some (CHR 0x0D)
      else if e = CHR ''t'' then Some (CHR 0x09)
      else None)"

text \<open>The characters of a string after its opening quote, and what follows the closing one.\<close>

fun scan_string :: "string \<Rightarrow> (string \<times> string) option" where
  "scan_string [] = None"
| "scan_string [c] = (if c = CHR 0x22 then Some ([], []) else None)"
| "scan_string (c # e # cs) =
     (if c = CHR 0x22 then Some ([], e # cs)
      else if c = CHR 0x5C then
        (case unescape e of
           None \<Rightarrow> None
         | Some ch \<Rightarrow>
             (case scan_string cs of None \<Rightarrow> None | Some (t, r) \<Rightarrow> Some (ch # t, r)))
      else if (of_char c :: nat) < 0x20 then None
      else (case scan_string (e # cs) of None \<Rightarrow> None | Some (t, r) \<Rightarrow> Some (c # t, r)))"

definition is_digit :: "char \<Rightarrow> bool" where
  "is_digit c = (48 \<le> (of_char c :: nat) \<and> (of_char c :: nat) \<le> 57)"

definition digits_value :: "string \<Rightarrow> int" where
  "digits_value ds = foldl (\<lambda>a c. 10 * a + (int (of_char c) - 48)) 0 ds"

definition scan_digits :: "string \<Rightarrow> (int \<times> string) option" where
  "scan_digits s =
     (let ds = takeWhile is_digit s; r = dropWhile is_digit s
      in if ds = [] then None
         else if hd ds = CHR ''0'' then Some (0, tl ds @ r)
         else Some (digits_value ds, r))"

definition scan_int :: "string \<Rightarrow> (pyval \<times> string) option" where
  "scan_int s =
     (case (if startswith s CHR ''-'' then map_option (\<lambda>(i, r). (- i, r)) (scan_digits (tl s))
            else scan_digits s) of
        None \<Rightarrow> None
      | Some (i, r) \<Rightarrow>
          if startswith r CHR ''.'' \<or> startswith r CHR ''e'' \<or> startswith r CHR ''E''
          then None else Some (PInt i, r))"

text \<open>
  The recursive descent, on a text without leading white space. The first argument
  decreases with every value and every element that is read; \<open>json_loads_basic\<close> starts
  it above the length of the text.
\<close>

fun parse_value :: "nat \<Rightarrow> string \<Rightarrow> (pyval \<times> string) option"
  and parse_elems :: "nat \<Rightarrow> pyval list \<Rightarrow> string \<Rightarrow> (pyval \<times> string) option"
  and parse_members :: "nat \<Rightarrow> (string \<times> pyval) list \<Rightarrow> string \<Rightarrow> (pyval \<times> string) option"
where
  "parse_value 0 s = None"
| "parse_value (Suc n) s =
     (if startswith s CHR ''{'' then
        (let r = skip_ws (tl s)
         in if startswith r CHR ''}'' then Some (PDict [], tl r) else parse_members n [] r)
      else if startswith s CHR ''['' then
        (let r = skip_ws (tl s)
         in if startswith r CHR '']'' then Some (PList [], tl r) else parse_elems n [] r)
      else if startswith s (CHR 0x22) then
        (case scan_string (tl s) of None \<Rightarrow> None | Some (t, r) \<Rightarrow> Some (PStr t, r))
      else if prefix ''true'' s then Some (PBool True, drop 4 s)
      else if prefix ''false'' s then Some (PBool False, drop 5 s)
      else if prefix ''null'' s then Some (PNone, drop 4 s)
      else scan_int s)"
| "parse_elems 0 acc s = None"
| "parse_elems (Suc n) acc s =
     (case parse_value n s of
        None \<Rightarrow> None
      | Some (v, r) \<Rightarrow>
          (let r1 = skip_ws r
           in if startswith r1 CHR '','' then parse_elems n (acc @ [v]) (skip_ws (tl r1))
              else if startswith r1 CHR '']'' then Some (PList (acc @ [v]), tl r1)
              else None))"
| "parse_members 0 acc s = None"
| "parse_members (Suc n) acc s =
     (if \<not> startswith s (CHR 0x22) then None
      else
        (case scan_string (tl s) of
           None \<Rightarrow> None
         | Some (k, r) \<Rightarrow>
             (let r1 = skip_ws r
              in if \<not> startswith r1 CHR '':'' then None
                 else
                   (case parse_value n (skip_ws (tl r1)) of
                      None \<Rightarrow> None
                    | Some (v, r2) \<Rightarrow>
                        (let r3 = skip_ws r2
                         in if startswith r3 CHR '','' then
                              parse_members n (AList.update k v acc) (skip_ws (tl r3))
                            else if startswith r3 CHR ''}'' then
                              Some (PDict (AList.update k v acc), tl r3)
                            else None)))))"

definition json_loads_basic :: decoder where
  "json_loads_basic s =
     (case parse_value (Suc (length s)) (skip_ws s) of
        None \<Rightarrow> Inl ''Expecting value''
      | Some (v, r) \<Rightarrow> if skip_ws r = [] then Inr v else Inl ''Extra data'')"








text \<open>
  Three clients for concrete runs: a completion model that replies a text, a chat model
  that replies a message with a content, and a client whose server is down.
\<close>

definition replying :: "string \<Rightarrow> unit client" where
  "replying s user_input w = (Inr (Text s), w)"

definition chat_replying :: "pyval \<Rightarrow> unit client" where
  "chat_replying c user_input w = (Inr (Message c), w)"

definition failing_client :: "unit client" where
  "failing_client user_input w = (Inl (ClientError ''Connection refused''), w)"

section \<open>Facts on the string operations\<close>

lemma py_find_ge: "- 1 \<le> py_find s c"
  by (induction s) (auto simp: Let_def)

lemma py_find_notin: "c \<notin> set s \<Longrightarrow> py_find s c = - 1"
  by (induction s) (auto simp: Let_def)

lemma py_find_in: "c \<in> set s \<Longrightarrow> py_find s c = int (length (takeWhile (\<lambda>x. x \<noteq> c) s))"
  by (induction s) (auto simp: Let_def)

lemma py_find_neg_iff: "py_find s c = - 1 \<longleftrightarrow> c \<notin> set s"
  using py_find_in [of c s] py_find_notin [of c s] by auto

lemma py_rfind_notin: "c \<notin> set s \<Longrightarrow> py_rfind s c = - 1"
  by (simp add: py_rfind_def py_find_notin)

lemma py_rfind_in:
  "c \<in> set s \<Longrightarrow>
     py_rfind s c + 1 = int (length s) - int (length (takeWhile (\<lambda>x. x \<noteq> c) (rev s)))"
  by (simp add: py_rfind_def py_find_in Let_def)

lemma py_rfind_ge: "- 1 \<le> py_rfind s c"
proof (cases "c \<in> set s")
  case True
  have "length (takeWhile (\<lambda>x. x \<noteq> c) (rev s)) \<le> length s"
    using length_takeWhile_le [of "\<lambda>x. x \<noteq> c" "rev s"] by simp
  with py_rfind_in [OF True] show ?thesis by linarith
next
  case False
  then show ?thesis by (simp add: py_rfind_notin)
qed

lemma slice_between:
  assumes "a \<in> set r" and "a \<noteq> b"
  shows "py_slice r (py_find r a) (py_rfind r b + 1) =
           rev (dropWhile (\<lambda>c. c \<noteq> b) (rev (dropWhile (\<lambda>c. c \<noteq> a) r)))"
proof -
  define u where "u = takeWhile (\<lambda>c. c \<noteq> a) r"
  define t where "t = dropWhile (\<lambda>c. c \<noteq> a) r"
  have r: "r = u @ t" by (simp add: u_def t_def)
  have i: "py_find r a = int (length u)" using assms(1) by (simp add: py_find_in u_def)
  have ia: "slice_index (length r) (int (length u)) = length u"
    by (simp add: slice_index_def r)
  have dr: "drop (length u) r = t" by (simp add: r)
  show ?thesis
  proof (cases "b \<in> set t")
    case True
    define tw where "tw = takeWhile (\<lambda>c. c \<noteq> b) (rev t)"
    define dw where "dw = dropWhile (\<lambda>c. c \<noteq> b) (rev t)"
    have rt: "rev t = tw @ dw" by (simp add: tw_def dw_def)
    then have t: "t = rev dw @ rev tw" by (metis rev_append rev_rev_ident)
    have "takeWhile (\<lambda>c. c \<noteq> b) (rev r) = tw"
      using True by (simp add: r tw_def)
    moreover have "b \<in> set r" using True by (simp add: r)
    ultimately have j: "py_rfind r b + 1 = int (length r) - int (length tw)"
      by (simp add: py_rfind_in)
    have len: "length r = length u + length dw + length tw" by (simp add: r t)
    have jb: "slice_index (length r) (py_rfind r b + 1) = length u + length dw"
      by (simp add: j slice_index_def len)
    show ?thesis
      unfolding py_slice_def Let_def i ia jb dr t_def [symmetric] dw_def [symmetric]
      by (simp add: t)
  next
    case False
    then have rhs: "dropWhile (\<lambda>c. c \<noteq> b) (rev t) = []" by auto
    have "slice_index (length r) (py_rfind r b + 1) \<le> length u"
    proof (cases "b \<in> set u")
      case True
      have "\<And>x. x \<in> set (rev t) \<Longrightarrow> x \<noteq> b" using False by auto
      then have "takeWhile (\<lambda>c. c \<noteq> b) (rev r) = rev t @ takeWhile (\<lambda>c. c \<noteq> b) (rev u)"
        unfolding r rev_append by (rule takeWhile_append2)
      moreover have "b \<in> set r" using True by (simp add: r)
      ultimately have "py_rfind r b + 1 =
          int (length u) - int (length (takeWhile (\<lambda>c. c \<noteq> b) (rev u)))"
        by (simp add: py_rfind_in r)
      moreover have "length (takeWhile (\<lambda>c. c \<noteq> b) (rev u)) \<le> length u"
        using length_takeWhile_le [of "\<lambda>c. c \<noteq> b" "rev u"] by simp
      ultimately show ?thesis by (simp add: slice_index_def)
    next
      case nu: False
      then have "b \<notin> set r" using False by (simp add: r)
      then show ?thesis by (simp add: py_rfind_notin slice_index_def)
    qed
    then show ?thesis
      unfolding py_slice_def Let_def i ia t_def [symmetric] by (simp add: rhs)
  qed
qed

lemma slice_between_braces:
  "CHR ''{'' \<in> set r \<Longrightarrow>
     py_slice r (py_find r CHR ''{'') (py_rfind r CHR ''}'' + 1) = between_braces r"
  by (simp add: slice_between between_braces_def)

lemma parse_try_eq:
  "parse_try loads r =
     (if startswith (py_strip r) CHR ''{'' then json_loads_call loads r
      else if CHR ''{'' \<in> set r then json_loads_call loads (between_braces r)
      else Inr (no_json_plan r))"
proof -
  have e: "py_rfind r CHR ''}'' + 1 \<noteq> - 1" using py_rfind_ge [of r "CHR ''}''"] by linarith
  show ?thesis
    using e by (simp add: parse_try_def Let_def py_find_neg_iff slice_between_braces)
qed

lemma parse_response_eq:
  "parse_response loads r =
     Inr (if startswith (py_strip r) CHR ''{''
          then (case loads r of Inr v \<Rightarrow> v | Inl m \<Rightarrow> decode_error_plan r)
          else if CHR ''{'' \<in> set r
          then (case loads (between_braces r) of Inr v \<Rightarrow> v | Inl m \<Rightarrow> decode_error_plan r)
          else no_json_plan r)"
  by (simp add: parse_response_def parse_try_eq json_loads_call_def split: sum.splits)

lemma strip_no_brace:
  assumes "CHR ''{'' \<notin> set s" shows "\<not> startswith (py_strip s) CHR ''{''"
proof
  assume "startswith (py_strip s) CHR ''{''"
  then have "CHR ''{'' \<in> set (py_strip s)" by (cases "py_strip s") auto
  then have "CHR ''{'' \<in> set s"
    by (auto simp: py_strip_def dest!: set_dropWhileD)
  with assms show False by simp
qed



section \<open>Facts on the node\<close>



lemma parse_response_Inl:
  "parse_try loads r = Inl (JSONDecodeError m) \<Longrightarrow>
     parse_response loads r = Inr (decode_error_plan r)"
  by (simp add: parse_response_def)

lemma parse_response_Inr:
  "parse_try loads r = Inr v \<Longrightarrow> parse_response loads r = Inr v"
  by (simp add: parse_response_def)

lemma steps_of_decode_error_plan:
  "steps_of (decode_error_plan r) = [fallback_step (PStr (py_strip r))]"
  by (simp add: steps_of_def decode_error_plan_def fallback_step_def)

lemma steps_of_no_json_plan:
  "steps_of (no_json_plan r) = [fallback_step (PStr (py_strip r))]"
  by (simp add: steps_of_def no_json_plan_def fallback_step_def)

lemma steps_of_planning_failed_plan:
  "steps_of (planning_failed_plan u e) = [fallback_step u]"
  by (simp add: steps_of_def planning_failed_plan_def fallback_step_def)

lemma fallback_decode_error_plan:
  "single_step_fallback (decode_error_plan r) (PStr (py_strip r)) ''Could not parse LLM response''"
  by (simp add: single_step_fallback_def steps_of_decode_error_plan) (simp add: decode_error_plan_def)

lemma fallback_no_json_plan:
  "single_step_fallback (no_json_plan r) (PStr (py_strip r)) ''Could not parse detailed plan''"
  by (simp add: single_step_fallback_def steps_of_no_json_plan) (simp add: no_json_plan_def)


lemma valid_step_fallback_step: "valid_step (fallback_step task)"
  by (simp add: valid_step_def required_keys_def has_key_def fallback_step_def)

lemma valid_decode_error_plan: "valid_plan (decode_error_plan r)"
  by (simp add: valid_plan_def steps_of_decode_error_plan valid_step_fallback_step)
     (simp add: decode_error_plan_def has_plan_list_def)

lemma valid_no_json_plan: "valid_plan (no_json_plan r)"
  by (simp add: valid_plan_def steps_of_no_json_plan valid_step_fallback_step)
     (simp add: no_json_plan_def has_plan_list_def)




lemma all_keys_in_True:
  "all_keys_in step keys = Inr True \<Longrightarrow> \<forall>k\<in>set keys. py_contains step k = Inr True"
  by (induction keys) (auto split: sum.splits if_splits)

lemma check_steps_Inr:
  "check_steps steps = Inr u \<Longrightarrow> \<forall>s\<in>set steps. all_keys_in s required_keys = Inr True"
  by (induction steps) (auto split: sum.splits if_splits)

lemma validate_plan_Inr:
  assumes "validate_plan p = Inr q"
  shows "q = p \<and> is_dict p \<and> has_plan_list p \<and> check_steps (steps_of p) = Inr ()"
proof (cases p)
  case (PDict kvs)
  with assms show ?thesis
    by (auto simp: validate_plan_def has_plan_list_def steps_of_def
             split: option.splits pyval.splits sum.splits)
qed (use assms in \<open>simp_all add: validate_plan_def\<close>)

lemma plan_steps_pass:
  assumes "validate_plan p = Inr q" and "step \<in> set (steps_of q)" and "k \<in> set required_keys"
  shows "py_contains step k = Inr True"
  using validate_plan_Inr [OF assms(1)] check_steps_Inr all_keys_in_True assms(2,3) by blast

lemma plan_eq:
  "plan loads llm u w =
     (case plan_try loads llm u w of
        (Inr p, w') \<Rightarrow> (Inr p, w')
      | (Inl e, w') \<Rightarrow> (Inr (planning_failed_plan u e), w'))"
  by (simp add: plan_def)

lemma plan_cases:
  obtains (parsed) p w' where "plan_try loads llm u w = (Inr p, w')"
      and "plan loads llm u w = (Inr p, w')"
  | (failed) e w' where "plan_try loads llm u w = (Inl e, w')"
      and "plan loads llm u w = (Inr (planning_failed_plan u e), w')"
proof (cases "plan_try loads llm u w")
  case (Pair r w')
  then show ?thesis by (cases r) (auto simp: plan_def intro: parsed failed)
qed

lemma plan_try_Inr:
  assumes "plan_try loads llm u w = (Inr p, w')"
  shows "\<exists>resp v. llm u w = (Inr resp, w') \<and> parse_response_of loads (content_of resp) = Inr v
           \<and> validate_plan v = Inr p"
  using assms by (auto simp: plan_try_def split: prod.splits sum.splits)

lemma has_plan_list_planning_failed: "has_plan_list (planning_failed_plan u e)"
  by (simp add: has_plan_list_def planning_failed_plan_def)

lemma is_dict_planning_failed: "is_dict (planning_failed_plan u e)"
  by (simp add: planning_failed_plan_def)

lemma plan_total:
  "\<exists>p w'. plan loads llm u w = (Inr p, w') \<and> is_dict p \<and> has_plan_list p"
proof (cases rule: plan_cases [of loads llm u w])
  case (parsed p w')
  from plan_try_Inr [OF parsed(1)] obtain v where "validate_plan v = Inr p" by blast
  from validate_plan_Inr [OF this] parsed(2) show ?thesis by auto
next
  case (failed e w')
  then show ?thesis by (simp add: has_plan_list_planning_failed is_dict_planning_failed)
qed


lemma contains_dict_has_key:
  "is_dict step \<Longrightarrow> py_contains step k = Inr True \<Longrightarrow> has_key step k"
  by (cases step) (auto simp: has_key_def map_of_eq_None_iff)

lemma enumerated_fallback_step:
  "steps_of p = [fallback_step task] \<Longrightarrow> enumerated_categories p"
  by (simp add: enumerated_categories_def fallback_step_def categories_def)

lemma parse_response_of_Inr:
  assumes "parse_response_of loads c = Inr v"
  shows "\<exists>s. c = PStr s \<and> parse_response loads s = Inr v"
  using assms by (cases c) simp_all

lemma parse_response_origin:
  assumes "parse_response loads s = Inr v"
  shows "loads s = Inr v \<or> loads (between_braces s) = Inr v \<or>
         v = decode_error_plan s \<or> v = no_json_plan s"
  using assms unfolding parse_response_eq by (auto split: if_splits sum.splits)

lemma all_keys_in_dict:
  "all_keys_in (PDict kvs) keys = Inr (list_all (\<lambda>k. k \<in> fst ` set kvs) keys)"
  by (induction keys) auto

lemma valid_step_dict:
  "valid_step (PDict kvs) = list_all (\<lambda>k. k \<in> fst ` set kvs) required_keys"
  by (simp add: valid_step_def has_key_def map_of_eq_None_iff list_all_iff)

lemma check_steps_dict_step:
  assumes "step \<in> set steps" and "is_dict step" and "\<not> valid_step step"
  shows "\<exists>e. check_steps steps = Inl e"
  using assms
proof (induction steps)
  case Nil
  then show ?case by simp
next
  case (Cons x xs)
  show ?case
  proof (cases "x = step")
    case True
    from Cons.prems(2) obtain kvs where "step = PDict kvs" by (cases step) auto
    with True Cons.prems(3) show ?thesis by (simp add: all_keys_in_dict valid_step_dict)
  next
    case False
    with Cons have "\<exists>e. check_steps xs = Inl e" by simp
    then show ?thesis by (auto split: sum.splits)
  qed
qed

lemma validate_plan_dict_step:
  assumes "step \<in> set (steps_of v)" and "is_dict step" and "\<not> valid_step step"
  shows "\<exists>e. validate_plan v = Inl e"
proof (cases v)
  case (PDict kvs)
  from assms(1) have "\<exists>steps. map_of kvs ''plan'' = Some (PList steps)"
    unfolding PDict by (auto simp: steps_of_def split: option.splits pyval.splits intro: sym)
  then obtain steps where s: "map_of kvs ''plan'' = Some (PList steps)" by blast
  then have "steps_of v = steps" by (simp add: PDict steps_of_def)
  with assms check_steps_dict_step obtain e where "check_steps steps = Inl e" by blast
  with PDict s show ?thesis by (simp add: validate_plan_def)
qed (use assms in \<open>simp_all add: steps_of_def\<close>)

lemma plan_dict_steps_valid:
  assumes "plan loads llm u w = (Inr p, w')" and "step \<in> set (steps_of p)" and "is_dict step"
  shows "valid_step step"
proof (cases rule: plan_cases [of loads llm u w])
  case (parsed q w'')
  with assms(1) have "plan_try loads llm u w = (Inr p, w')" by simp
  from plan_try_Inr [OF this] obtain v where v: "validate_plan v = Inr p" by blast
  show ?thesis
  proof (rule ccontr)
    assume n: "\<not> valid_step step"
    from validate_plan_Inr [OF v] have "v = p" by simp
    with validate_plan_dict_step [OF _ assms(3) n, of v] assms(2) v show False by auto
  qed
next
  case (failed e w'')
  with assms(1) have "p = planning_failed_plan u e" by simp
  with assms(2) have "step = fallback_step u"
    by (simp add: steps_of_planning_failed_plan)
  then show ?thesis by (simp add: valid_step_fallback_step)
qed


lemma steps_of_empty_plan: "steps_of empty_plan = []"
  by (simp add: steps_of_def empty_plan_def)

lemma has_plan_list_empty_plan: "has_plan_list empty_plan"
  by (simp add: has_plan_list_def empty_plan_def)

lemma call_falsy:
  "\<not> py_truthy (case map_of st ''user_input'' of None \<Rightarrow> PStr [] | Some v \<Rightarrow> v) \<Longrightarrow>
     PlannerNode_call loads llm st w = (Inr (AList.update ''plan'' empty_plan st), w)"
  by (simp add: PlannerNode_call_def)

section \<open>The claims\<close>



text \<open>
  C2. Every element of the \<^verbatim>\<open>'plan'\<close> list of a returned Plan should have the four
  keys. The loop of \<^verbatim>\<open>plan\<close> tests \<^verbatim>\<open>key in step\<close>, which holds of a string that
  has the four words as substrings: on the reply below \<^verbatim>\<open>plan\<close> returns a Plan whose
  one step is a string, with no key at all. (A step that is a dictionary does have the
  four keys: \<open>plan_dict_steps_valid\<close>.)
\<close>

theorem plan_accepts_text_step:
  \<open>plan json_loads_basic (replying ''{"plan": ["step description task category"]}'')
      (PStr ''list files'') () =
     (Inr (PDict [(''plan'', PList [PStr ''step description task category''])]), ()) \<and>
   steps_of (PDict [(''plan'', PList [PStr ''step description task category''])]) =
     [PStr ''step description task category''] \<and>
   \<not> has_key (PStr ''step description task category'') ''step'' \<and>
   \<not> valid_step (PStr ''step description task category'')\<close>
  by code_simp

text \<open>
  C3. When the state has no \<^verbatim>\<open>'user_input'\<close> or an empty string there,
  \<^verbatim>\<open>__call__\<close> returns the state with the empty Plan under \<^verbatim>\<open>'plan'\<close> (its list of
  steps is empty, the other entries are those of the state) and leaves the world as it
  was: the client is not invoked, with any client, and a client that counts its
  invocations keeps its count.
\<close>

theorem call_without_input:
  assumes "map_of st ''user_input'' = None \<or> map_of st ''user_input'' = Some (PStr [])"
  shows "PlannerNode_call loads llm st w = (Inr (AList.update ''plan'' empty_plan st), w) \<and>
         map_of (AList.update ''plan'' empty_plan st) = (map_of st)(''plan'' \<mapsto> empty_plan) \<and>
         has_plan_list empty_plan \<and> steps_of empty_plan = [] \<and>
         snd (PlannerNode_call loads (counted llm) st (w, n)) = (w, n)"
proof -
  from assms have f: "\<not> py_truthy (case map_of st ''user_input'' of None \<Rightarrow> PStr [] | Some v \<Rightarrow> v)"
    by auto
  show ?thesis
    using call_falsy [OF f, of loads llm w] call_falsy [OF f, of loads "counted llm" "(w, n)"]
    by (simp add: update_conv' has_plan_list_empty_plan steps_of_empty_plan)
qed

theorem call_without_input_witness:
  \<open>map_of [(''session'', PInt 7)] ''user_input'' = None \<and>
   map_of [(''user_input'', PStr []), (''session'', PInt 7)] ''user_input'' = Some (PStr []) \<and>
   PlannerNode_call json_loads_basic (counted failing_client) [(''session'', PInt 7)] ((), 0) =
     (Inr [(''session'', PInt 7), (''plan'', empty_plan)], ((), 0)) \<and>
   PlannerNode_call json_loads_basic (counted (replying ''{"plan": []}''))
       [(''user_input'', PStr []), (''session'', PInt 7)] ((), 0) =
     (Inr [(''user_input'', PStr []), (''session'', PInt 7), (''plan'', empty_plan)], ((), 0))\<close>
proof -
  have a: \<open>map_of [(''session'', PInt 7)] ''user_input'' = None \<or>
           map_of [(''session'', PInt 7)] ''user_input'' = Some (PStr [])\<close>
    by simp
  have b: \<open>map_of [(''user_input'', PStr []), (''session'', PInt 7)] ''user_input'' = None \<or>
           map_of [(''user_input'', PStr []), (''session'', PInt 7)] ''user_input'' = Some (PStr [])\<close>
    by simp
  from call_without_input [OF a, of json_loads_basic \<open>counted failing_client\<close> \<open>((), 0)\<close>]
       call_without_input [OF b, of json_loads_basic \<open>counted (replying ''{"plan": []}'')\<close> \<open>((), 0)\<close>]
  show ?thesis by simp
qed

text \<open>
  C4. When the response has no opening brace (no JSON object at all), or neither the
  response nor its part between the braces decodes (malformed JSON),
  \<^verbatim>\<open>_parse_response\<close> returns one of its two fallback dictionaries: a valid Plan whose
  list has exactly one step, with the four fields, the category \<^verbatim>\<open>other\<close> and the
  stripped response as the task.
\<close>

theorem malformed_gives_fallback:
  assumes "CHR ''{'' \<notin> set r \<or> both_parses_fail loads r"
  shows "\<exists>p. parse_response loads r = Inr p \<and> (p = no_json_plan r \<or> p = decode_error_plan r) \<and>
           valid_plan p \<and> steps_of p = [fallback_step (PStr (py_strip r))] \<and>
           valid_step (fallback_step (PStr (py_strip r))) \<and>
           field (fallback_step (PStr (py_strip r))) ''category'' = Some (PStr ''other'') \<and>
           field (fallback_step (PStr (py_strip r))) ''task'' = Some (PStr (py_strip r))"
proof -
  have f: "field (fallback_step (PStr (py_strip r))) ''category'' = Some (PStr ''other'')"
    "field (fallback_step (PStr (py_strip r))) ''task'' = Some (PStr (py_strip r))"
    by (simp_all add: fallback_step_def)
  show ?thesis
  proof (cases "CHR ''{'' \<in> set r")
    case False
    then have "parse_response loads r = Inr (no_json_plan r)"
      by (simp add: parse_response_eq strip_no_brace)
    with f show ?thesis
      by (simp add: valid_no_json_plan steps_of_no_json_plan valid_step_fallback_step)
  next
    case True
    with assms obtain m m' where "loads r = Inl m" "loads (between_braces r) = Inl m'"
      by (auto simp: both_parses_fail_def isl_def)
    with True have "parse_response loads r = Inr (decode_error_plan r)"
      by (simp add: parse_response_eq)
    with f show ?thesis
      by (simp add: valid_decode_error_plan steps_of_decode_error_plan valid_step_fallback_step)
  qed
qed

theorem malformed_gives_fallback_witness:
  \<open>both_parses_fail json_loads_basic ''Sure! {"plan": [ {"step": 1 ] } '' \<and>
   CHR ''{'' \<notin> set '' install nginx '' \<and>
   parse_response json_loads_basic ''Sure! {"plan": [ {"step": 1 ] } '' =
     Inr (decode_error_plan ''Sure! {"plan": [ {"step": 1 ] } '') \<and>
   parse_response json_loads_basic '' install nginx '' = Inr (no_json_plan '' install nginx '') \<and>
   steps_of (no_json_plan '' install nginx '') = [fallback_step (PStr ''install nginx'')]\<close>
proof -
  have a: \<open>both_parses_fail json_loads_basic ''Sure! {"plan": [ {"step": 1 ] } ''\<close>
    by code_simp
  have b: \<open>CHR ''{'' \<notin> set '' install nginx ''\<close>
    by code_simp
  have c: \<open>decode_error_plan ''Sure! {"plan": [ {"step": 1 ] } '' \<noteq>
           no_json_plan ''Sure! {"plan": [ {"step": 1 ] } ''\<close>
    by (simp add: decode_error_plan_def no_json_plan_def)
  have d: \<open>parse_response json_loads_basic ''Sure! {"plan": [ {"step": 1 ] } '' \<noteq>
             Inr (no_json_plan ''Sure! {"plan": [ {"step": 1 ] } '')\<close>
    by code_simp
  have e: \<open>parse_response json_loads_basic '' install nginx '' \<noteq>
             Inr (decode_error_plan '' install nginx '')\<close>
    by code_simp
  have s: \<open>py_strip '' install nginx '' = ''install nginx''\<close> by code_simp
  from malformed_gives_fallback [of \<open>''Sure! {"plan": [ {"step": 1 ] } ''\<close> json_loads_basic] a d
  have f: \<open>parse_response json_loads_basic ''Sure! {"plan": [ {"step": 1 ] } '' =
     Inr (decode_error_plan ''Sure! {"plan": [ {"step": 1 ] } '')\<close>
    by auto
  from malformed_gives_fallback [of \<open>'' install nginx ''\<close> json_loads_basic] b e
  have g: \<open>parse_response json_loads_basic '' install nginx '' = Inr (no_json_plan '' install nginx '') \<and>
     steps_of (no_json_plan '' install nginx '') = [fallback_step (PStr (py_strip '' install nginx ''))]\<close>
    by auto
  from a b f g s show ?thesis by simp
qed

text \<open>
  C5, as stated: the fallback comes only if both parses fail, and wraps the raw response.
  On the response below the direct parse applies and fails on the text after the object;
  the part between the braces decodes, yet the fallback is returned, and its task is
  the stripped response, not the raw one.
\<close>

theorem parse_order_counterexample:
  \<open>startswith (py_strip ''{"a": 1} x '') CHR ''{'' \<and>
   json_loads_basic ''{"a": 1} x '' = Inl ''Extra data'' \<and>
   between_braces ''{"a": 1} x '' = ''{"a": 1}'' \<and>
   json_loads_basic (between_braces ''{"a": 1} x '') = Inr (PDict [(''a'', PInt 1)]) \<and>
   \<not> both_parses_fail json_loads_basic ''{"a": 1} x '' \<and>
   parse_response json_loads_basic ''{"a": 1} x '' = Inr (decode_error_plan ''{"a": 1} x '') \<and>
   steps_of (decode_error_plan ''{"a": 1} x '') = [fallback_step (PStr ''{"a": 1} x'')] \<and>
   \<not> raw_text_plan ''{"a": 1} x '' (decode_error_plan ''{"a": 1} x '')\<close>
  by code_simp

text \<open>
  C5, amended. When the stripped response starts with an opening brace, the result is
  the direct parse of the response, or the fallback when that raises JSONDecodeError;
  no extraction is tried. Otherwise, when the response has an opening brace, the result
  is the parse of the part between the first opening and the last closing brace, or the
  fallback when that raises. Otherwise it is the fallback for a response without JSON.
  Both fallbacks are single-step plans with the stripped response as the task.
\<close>

theorem parse_response_order:
  "parse_response loads r =
     Inr (if startswith (py_strip r) CHR ''{''
          then (case loads r of Inr v \<Rightarrow> v | Inl m \<Rightarrow> decode_error_plan r)
          else if CHR ''{'' \<in> set r
          then (case loads (between_braces r) of Inr v \<Rightarrow> v | Inl m \<Rightarrow> decode_error_plan r)
          else no_json_plan r) \<and>
   single_step_fallback (decode_error_plan r) (PStr (py_strip r)) ''Could not parse LLM response'' \<and>
   single_step_fallback (no_json_plan r) (PStr (py_strip r)) ''Could not parse detailed plan''"
  using parse_response_eq [of loads r] fallback_decode_error_plan [of r] fallback_no_json_plan [of r]
  by (simp only: simp_thms)

theorem parse_response_order_witness:
  \<open>parse_response json_loads_basic ''Here is the plan: {"plan": []} Good luck!'' =
     Inr (PDict [(''plan'', PList [])]) \<and>
   parse_response json_loads_basic '' {"plan": []}'' = Inr (PDict [(''plan'', PList [])]) \<and>
   parse_response json_loads_basic ''{"plan": []} Good luck!'' =
     Inr (decode_error_plan ''{"plan": []} Good luck!'') \<and>
   parse_response json_loads_basic ''[1, 2]'' = Inr (no_json_plan ''[1, 2]'')\<close>
proof -
  have a: \<open>\<not> startswith (py_strip ''Here is the plan: {"plan": []} Good luck!'') CHR ''{'' \<and>
      CHR ''{'' \<in> set ''Here is the plan: {"plan": []} Good luck!'' \<and>
      json_loads_basic (between_braces ''Here is the plan: {"plan": []} Good luck!'') =
        Inr (PDict [(''plan'', PList [])])\<close>
    by code_simp
  have b: \<open>startswith (py_strip '' {"plan": []}'') CHR ''{'' \<and>
      json_loads_basic '' {"plan": []}'' = Inr (PDict [(''plan'', PList [])])\<close>
    by code_simp
  have c: \<open>startswith (py_strip ''{"plan": []} Good luck!'') CHR ''{'' \<and>
      json_loads_basic ''{"plan": []} Good luck!'' = Inl ''Extra data''\<close>
    by code_simp
  have d: \<open>\<not> startswith (py_strip ''[1, 2]'') CHR ''{'' \<and> CHR ''{'' \<notin> set ''[1, 2]''\<close>
    by code_simp
  have \<open>parse_response json_loads_basic ''Here is the plan: {"plan": []} Good luck!'' =
     Inr (PDict [(''plan'', PList [])])\<close>
    using parse_response_order [of json_loads_basic \<open>''Here is the plan: {"plan": []} Good luck!''\<close>] a
    by simp
  moreover have \<open>parse_response json_loads_basic '' {"plan": []}'' = Inr (PDict [(''plan'', PList [])])\<close>
    using parse_response_order [of json_loads_basic \<open>'' {"plan": []}''\<close>] b by simp
  moreover have \<open>parse_response json_loads_basic ''{"plan": []} Good luck!'' =
     Inr (decode_error_plan ''{"plan": []} Good luck!'')\<close>
    using parse_response_order [of json_loads_basic \<open>''{"plan": []} Good luck!''\<close>] c by simp
  moreover have \<open>parse_response json_loads_basic ''[1, 2]'' = Inr (no_json_plan ''[1, 2]'')\<close>
    using parse_response_order [of json_loads_basic \<open>''[1, 2]''\<close>] d by simp
  ultimately show ?thesis by blast
qed



text \<open>
  C7. When the state has a \<^verbatim>\<open>'user_input'\<close> that is true (a non-empty string, for
  one), \<^verbatim>\<open>__call__\<close> returns the state with the Plan that \<^verbatim>\<open>plan\<close> returns on
  that input under \<^verbatim>\<open>'plan'\<close>, \<open>0\<close> under \<^verbatim>\<open>'current_step'\<close>, and empty lists under
  \<^verbatim>\<open>'completed_steps'\<close> and \<^verbatim>\<open>'failed_steps'\<close>; every other key has the value it
  had.
\<close>

theorem call_merges_plan:
  assumes "map_of st ''user_input'' = Some user_input" and "py_truthy user_input"
  shows "\<exists>p w' st'. plan loads llm user_input w = (Inr p, w') \<and>
           PlannerNode_call loads llm st w = (Inr st', w') \<and>
           map_of st' ''plan'' = Some p \<and>
           map_of st' ''current_step'' = Some (PInt 0) \<and>
           map_of st' ''completed_steps'' = Some (PList []) \<and>
           map_of st' ''failed_steps'' = Some (PList []) \<and>
           (\<forall>k. k \<notin> {''plan'', ''current_step'', ''completed_steps'', ''failed_steps''} \<longrightarrow>
                map_of st' k = map_of st k)"
proof -
  obtain p w' where p: "plan loads llm user_input w = (Inr p, w')"
    using plan_total [of loads llm user_input w] by blast
  define st' where "st' = AList.update ''failed_steps'' (PList [])
     (AList.update ''completed_steps'' (PList [])
       (AList.update ''current_step'' (PInt 0) (AList.update ''plan'' p st)))"
  have c: "PlannerNode_call loads llm st w = (Inr st', w')"
    using assms p by (simp add: PlannerNode_call_def st'_def)
  have m: "map_of st' = (map_of st)(''plan'' \<mapsto> p, ''current_step'' \<mapsto> PInt 0,
      ''completed_steps'' \<mapsto> PList [], ''failed_steps'' \<mapsto> PList [])"
    by (simp add: st'_def update_conv')
  have "map_of st' ''plan'' = Some p" "map_of st' ''current_step'' = Some (PInt 0)"
    "map_of st' ''completed_steps'' = Some (PList [])" "map_of st' ''failed_steps'' = Some (PList [])"
    by (simp_all add: m)
  moreover have "\<forall>k. k \<notin> {''plan'', ''current_step'', ''completed_steps'', ''failed_steps''} \<longrightarrow>
      map_of st' k = map_of st k"
    by (simp add: m)
  ultimately show ?thesis using p c by blast
qed

theorem call_merges_plan_witness:
  \<open>map_of [(''user_input'', PStr ''list files''), (''session'', PInt 7), (''current_step'', PInt 3)]
      ''user_input'' = Some (PStr ''list files'') \<and>
   py_truthy (PStr ''list files'') \<and>
   PlannerNode_call json_loads_basic (replying ''{"plan": []}'')
       [(''user_input'', PStr ''list files''), (''session'', PInt 7), (''current_step'', PInt 3)] () =
     (Inr [(''user_input'', PStr ''list files''), (''session'', PInt 7), (''current_step'', PInt 0),
           (''plan'', PDict [(''plan'', PList [])]), (''completed_steps'', PList []),
           (''failed_steps'', PList [])], ())\<close>
proof -
  have a: \<open>map_of [(''user_input'', PStr ''list files''), (''session'', PInt 7), (''current_step'', PInt 3)]
      ''user_input'' = Some (PStr ''list files'')\<close>
    by simp
  have b: \<open>py_truthy (PStr ''list files'')\<close> by simp
  have c: \<open>plan json_loads_basic (replying ''{"plan": []}'') (PStr ''list files'') () =
     (Inr (PDict [(''plan'', PList [])]), ())\<close>
    by code_simp
  from call_merges_plan [OF a b, of json_loads_basic \<open>replying ''{"plan": []}''\<close> \<open>()\<close>] c
  obtain st' where \<open>PlannerNode_call json_loads_basic (replying ''{"plan": []}'')
       [(''user_input'', PStr ''list files''), (''session'', PInt 7), (''current_step'', PInt 3)] () =
     (Inr st', ())\<close>
    by auto
  moreover have \<open>fst (PlannerNode_call json_loads_basic (replying ''{"plan": []}'')
       [(''user_input'', PStr ''list files''), (''session'', PInt 7), (''current_step'', PInt 3)] ()) =
     Inr [(''user_input'', PStr ''list files''), (''session'', PInt 7), (''current_step'', PInt 0),
           (''plan'', PDict [(''plan'', PList [])]), (''completed_steps'', PList []),
           (''failed_steps'', PList [])]\<close>
    by code_simp
  ultimately show ?thesis using a b by simp
qed

text \<open>
  C8, as stated: the category of every step of a returned Plan is one of the enumerated
  values. The enumeration stands in the prompt only; the code tests that the key is
  there, not its value. On the reply below \<^verbatim>\<open>plan\<close> returns a step of category
  \<^verbatim>\<open>banana\<close>.
\<close>

theorem category_unchecked_counterexample:
  \<open>plan json_loads_basic
      (replying ''{"plan": [{"step": 1, "description": "d", "task": "t", "category": "banana"}]}'')
      (PStr ''list files'') () =
     (Inr (PDict [(''plan'', PList [PDict [(''step'', PInt 1), (''description'', PStr ''d''),
                                           (''task'', PStr ''t''), (''category'', PStr ''banana'')]])]),
      ()) \<and>
   ''banana'' \<notin> set categories \<and>
   \<not> enumerated_categories
       (PDict [(''plan'', PList [PDict [(''step'', PInt 1), (''description'', PStr ''d''),
                                        (''task'', PStr ''t''), (''category'', PStr ''banana'')]])])\<close>
  by code_simp

text \<open>
  C8, amended. For every Plan that \<^verbatim>\<open>plan\<close> returns, every step passes the test
  \<^verbatim>\<open>'category' in step\<close>, and a step that is a dictionary has the key. Either every
  step has an enumerated category (in the fallbacks it is \<^verbatim>\<open>other\<close>), or the Plan is
  the value that the decoder gave for the reply or for its part between the braces,
  whose categories are not checked.
\<close>

theorem plan_category_present:
  assumes "plan loads llm user_input w = (Inr p, w')"
  shows "(\<forall>step\<in>set (steps_of p).
            py_contains step ''category'' = Inr True \<and> (is_dict step \<longrightarrow> has_key step ''category'')) \<and>
         (enumerated_categories p \<or>
          (\<exists>resp s. llm user_input w = (Inr resp, w') \<and> content_of resp = PStr s \<and>
             (loads s = Inr p \<or> loads (between_braces s) = Inr p)))"
proof (cases rule: plan_cases [of loads llm user_input w])
  case (failed e w'')
  with assms have p: "p = planning_failed_plan user_input e" by simp
  have s: "steps_of p = [fallback_step user_input]"
    by (simp add: p steps_of_planning_failed_plan)
  have "py_contains (fallback_step user_input) ''category'' = Inr True"
    "has_key (fallback_step user_input) ''category''"
    by (simp_all add: fallback_step_def has_key_def)
  with s enumerated_fallback_step [OF s] show ?thesis by simp
next
  case (parsed q w'')
  with assms have q: "q = p" "w'' = w'" by simp_all
  from plan_try_Inr [OF parsed(1)] q obtain resp v where
    r: "llm user_input w = (Inr resp, w')"
    and v: "parse_response_of loads (content_of resp) = Inr v"
    and val: "validate_plan v = Inr p"
    by blast
  from validate_plan_Inr [OF val] have vp: "v = p" by simp
  from parse_response_of_Inr [OF v] vp obtain s where
    s: "content_of resp = PStr s" "parse_response loads s = Inr p"
    by blast
  have k: "''category'' \<in> set required_keys" by (simp add: required_keys_def)
  have c: "py_contains step ''category'' = Inr True" if "step \<in> set (steps_of p)" for step
    using plan_steps_pass [OF val that k] .
  have first: "\<forall>step\<in>set (steps_of p).
      py_contains step ''category'' = Inr True \<and> (is_dict step \<longrightarrow> has_key step ''category'')"
    using c contains_dict_has_key by blast
  from parse_response_origin [OF s(2)]
  have "enumerated_categories p \<or> loads s = Inr p \<or> loads (between_braces s) = Inr p"
    using enumerated_fallback_step steps_of_decode_error_plan steps_of_no_json_plan by blast
  with r s(1) first show ?thesis by blast
qed

theorem plan_category_present_witness:
  \<open>plan json_loads_basic
      (replying ''Plan: {"plan": [{"step": 1, "description": "d", "task": "t", "category": "banana"}]}'')
      (PStr ''list files'') () =
     (Inr (PDict [(''plan'', PList [PDict [(''step'', PInt 1), (''description'', PStr ''d''),
                                           (''task'', PStr ''t''), (''category'', PStr ''banana'')]])]),
      ()) \<and>
   has_key (PDict [(''step'', PInt 1), (''description'', PStr ''d''),
                   (''task'', PStr ''t''), (''category'', PStr ''banana'')]) ''category'' \<and>
   plan json_loads_basic failing_client (PStr ''list files'') () =
     (Inr (planning_failed_plan (PStr ''list files'') (ClientError ''Connection refused'')), ()) \<and>
   enumerated_categories (planning_failed_plan (PStr ''list files'') (ClientError ''Connection refused''))\<close>
proof -
  have a: \<open>plan json_loads_basic
      (replying ''Plan: {"plan": [{"step": 1, "description": "d", "task": "t", "category": "banana"}]}'')
      (PStr ''list files'') () =
     (Inr (PDict [(''plan'', PList [PDict [(''step'', PInt 1), (''description'', PStr ''d''),
                                           (''task'', PStr ''t''), (''category'', PStr ''banana'')]])]),
      ())\<close>
    by code_simp
  have b: \<open>plan json_loads_basic failing_client (PStr ''list files'') () =
     (Inr (planning_failed_plan (PStr ''list files'') (ClientError ''Connection refused'')), ())\<close>
    by code_simp
  have s: \<open>steps_of (PDict [(''plan'', PList [PDict [(''step'', PInt 1), (''description'', PStr ''d''),
                                           (''task'', PStr ''t''), (''category'', PStr ''banana'')]])]) =
     [PDict [(''step'', PInt 1), (''description'', PStr ''d''),
                                           (''task'', PStr ''t''), (''category'', PStr ''banana'')]]\<close>
    by (simp add: steps_of_def)
  have n: \<open>failing_client (PStr ''list files'') () \<noteq> (Inr resp, ())\<close> for resp
    by (simp add: failing_client_def)
  from plan_category_present [OF a] s
  have c: \<open>has_key (PDict [(''step'', PInt 1), (''description'', PStr ''d''),
                   (''task'', PStr ''t''), (''category'', PStr ''banana'')]) ''category''\<close>
    by simp
  from plan_category_present [OF b] n
  have d: \<open>enumerated_categories
     (planning_failed_plan (PStr ''list files'') (ClientError ''Connection refused''))\<close>
    by blast
  from a b c d show ?thesis by blast
qed



text \<open>
  C10. The index after the last closing brace is never \<open>-1\<close>, so the second test of
  the guard always holds. When the response has an opening brace and no closing one,
  its stripped form does not start with a brace, and the decoder raises on the empty
  text, then the index is \<open>0\<close>, the extracted substring is empty, the decoder's
  JSONDecodeError leaves the body, and the result is the fallback with the warning
  \<^verbatim>\<open>Could not parse LLM response\<close>, not the fallback for a response without JSON.
\<close>

theorem end_idx_guard_vacuous:
  "py_rfind r CHR ''}'' + 1 \<noteq> - 1 \<and>
   (CHR ''{'' \<in> set r \<and> CHR ''}'' \<notin> set r \<and> \<not> startswith (py_strip r) CHR ''{'' \<and>
    loads [] = Inl m \<longrightarrow>
      py_rfind r CHR ''}'' + 1 = 0 \<and>
      py_slice r (py_find r CHR ''{'') (py_rfind r CHR ''}'' + 1) = [] \<and>
      parse_try loads r = Inl (JSONDecodeError m) \<and>
      parse_response loads r = Inr (decode_error_plan r) \<and>
      field (decode_error_plan r) ''warnings'' = Some (PList [PStr ''Could not parse LLM response'']) \<and>
      decode_error_plan r \<noteq> no_json_plan r)"
proof (intro conjI impI)
  show "py_rfind r CHR ''}'' + 1 \<noteq> - 1" using py_rfind_ge [of r "CHR ''}''"] by linarith
next
  assume h: "CHR ''{'' \<in> set r \<and> CHR ''}'' \<notin> set r \<and> \<not> startswith (py_strip r) CHR ''{'' \<and>
    loads [] = Inl m"
  then show e0: "py_rfind r CHR ''}'' + 1 = 0" by (simp add: py_rfind_notin)
  show s0: "py_slice r (py_find r CHR ''{'') (py_rfind r CHR ''}'' + 1) = []"
    by (simp add: e0 py_slice_def slice_index_def)
  from h have "py_find r CHR ''{'' \<noteq> - 1" by (simp add: py_find_neg_iff)
  with h show t: "parse_try loads r = Inl (JSONDecodeError m)"
    unfolding parse_try_def Let_def s0 by (simp add: e0 json_loads_call_def)
  then show "parse_response loads r = Inr (decode_error_plan r)" by (rule parse_response_Inl)
  show "field (decode_error_plan r) ''warnings'' = Some (PList [PStr ''Could not parse LLM response''])"
    by (simp add: decode_error_plan_def)
  show "decode_error_plan r \<noteq> no_json_plan r"
    by (simp add: decode_error_plan_def no_json_plan_def)
qed

theorem end_idx_guard_vacuous_witness:
  \<open>CHR ''{'' \<in> set ''run { ls'' \<and> CHR ''}'' \<notin> set ''run { ls'' \<and>
   \<not> startswith (py_strip ''run { ls'') CHR ''{'' \<and> json_loads_basic [] = Inl ''Expecting value'' \<and>
   py_slice ''run { ls'' (py_find ''run { ls'' CHR ''{'') (py_rfind ''run { ls'' CHR ''}'' + 1) = [] \<and>
   parse_response json_loads_basic ''run { ls'' = Inr (decode_error_plan ''run { ls'')\<close>
proof -
  have h: \<open>CHR ''{'' \<in> set ''run { ls'' \<and> CHR ''}'' \<notin> set ''run { ls'' \<and>
     \<not> startswith (py_strip ''run { ls'') CHR ''{'' \<and> json_loads_basic [] = Inl ''Expecting value''\<close>
    by code_simp
  with end_idx_guard_vacuous [of \<open>''run { ls''\<close> json_loads_basic \<open>''Expecting value''\<close>]
  show ?thesis by blast
qed

end
